theory Spec2Isabelle
  imports Main "HOL-Library.AList" "HOL-Library.Char_ord" "HOL-Library.List_Lexorder"
    "HOL-Library.Multiset"
begin

section \<open>Data model of \<^verbatim>\<open>src/log.js\<close>\<close>

text \<open>
  A Lamport clock is the pair of an id (the signer's public key) and a time; the class
  \<^verbatim>\<open>Clock\<close> of \<^verbatim>\<open>./lamport-clock\<close> is used by \<^verbatim>\<open>log.js\<close> only through
  \<^verbatim>\<open>new Clock(id, time)\<close>, \<^verbatim>\<open>clock.id\<close> and \<^verbatim>\<open>clock.time\<close>. Times are
  JavaScript numbers that the log only compares, takes the maximum of and increments by
  one; a time is an integer here, standing for the double of that value. Comparison and
  \<^verbatim>\<open>Math.max\<close> are exact on doubles; the addition rounds (\<open>js_add\<close> below).
\<close>

record clock =
  id_c :: string
  time :: int

text \<open>
  An entry as \<^verbatim>\<open>log.js\<close> reads it: \<^verbatim>\<open>hash\<close>, \<^verbatim>\<open>id\<close> (the id of the log it
  belongs to), \<^verbatim>\<open>payload\<close>, \<^verbatim>\<open>next\<close>, \<^verbatim>\<open>clock\<close>, the signer's public key and
  \<^verbatim>\<open>sig\<close>.
\<close>

record entry =
  hash :: string
  id_e :: string
  payload :: string
  "next" :: "string list"
  clock :: clock
  key :: string
  sig :: string

text \<open>
  A plain JavaScript object used as a dictionary is an association list in insertion
  order: \<^verbatim>\<open>o[k] = v\<close> overwrites the value of a key in place and adds a new key at
  the end (\<^const>\<open>AList.update\<close>), \<^verbatim>\<open>o[k]\<close> is \<^const>\<open>map_of\<close>,
  \<^verbatim>\<open>Object.keys\<close> and \<^verbatim>\<open>Object.values\<close> list keys and values in that order.
  The keys of the log's dictionaries are content hashes; they are taken not to be
  canonical array indices nor names of \<^verbatim>\<open>Object.prototype\<close>, for which JavaScript
  orders and resolves properties differently. \<^verbatim>\<open>isDefined\<close> of \<^verbatim>\<open>./utils\<close> tests
  that a value is not \<^verbatim>\<open>undefined\<close>; a value that may be \<^verbatim>\<open>undefined\<close> is an
  \<^typ>\<open>'a option\<close>.
\<close>

type_synonym 'v obj = "(string \<times> 'v) list"

definition obj_keys :: "'v obj \<Rightarrow> string list" where
  "obj_keys o1 = map fst o1"

definition obj_values :: "'v obj \<Rightarrow> 'v list" where
  "obj_values o1 = map snd o1"

text \<open>\<^verbatim>\<open>Object.assign(target, src)\<close>: every own property of \<^verbatim>\<open>src\<close>, in order, is
  written into \<^verbatim>\<open>target\<close>.\<close>

definition assign :: "'v obj \<Rightarrow> 'v obj \<Rightarrow> 'v obj" where
  "assign target src = foldl (\<lambda>res (k, v). AList.update k v res) target src"

text \<open>\<^verbatim>\<open>const uniqueEntriesReducer = (res, acc) => { res[acc.hash] = acc; return res }\<close>\<close>

definition uniqueEntriesReducer :: "entry obj \<Rightarrow> entry \<Rightarrow> entry obj" where
  "uniqueEntriesReducer res acc = AList.update (hash acc) acc res"

text \<open>
  The sum of two JavaScript numbers with integer values is the exact sum rounded to the
  nearest double: a value of magnitude below \<open>2 ^ 53\<close> is kept, a larger one keeps
  its 53 leading bits, rounded to nearest with ties to the even significand (so
  \<open>2 ^ 53 + 1\<close> is \<open>2 ^ 53\<close>). \<open>ulp_of a\<close> is the spacing of the doubles at the
  magnitude \<open>a\<close>. The overflow to \<^verbatim>\<open>Infinity\<close> above \<open>2 ^ 1024\<close> is left out.
\<close>

function ulp_of :: "int \<Rightarrow> int" where
  "ulp_of a = (if a < 2 ^ 53 then 1 else 2 * ulp_of (a div 2))"
  by pat_completeness auto
termination
  by (relation "measure nat") auto

declare ulp_of.simps [simp del]

definition to_double :: "int \<Rightarrow> int" where
  "to_double n =
     (let a = \<bar>n\<bar>; q = ulp_of a; m = a div q; r = a mod q;
          m' = (if 2 * r < q then m else if q < 2 * r then m + 1
                else if even m then m else m + 1)
      in sgn n * (m' * q))"

definition js_add :: "int \<Rightarrow> int \<Rightarrow> int" where
  "js_add x y = to_double (x + y)"

text \<open>\<^verbatim>\<open>const maxClockTimeReducer = (res, acc) => Math.max(res, acc.clock.time)\<close>\<close>

definition maxClockTimeReducer :: "int \<Rightarrow> entry \<Rightarrow> int" where
  "maxClockTimeReducer res acc = max res (time (clock acc))"

text \<open>
  An array stored where an object is expected (the bounded join stores the array returned
  by \<^verbatim>\<open>findHeads\<close> in \<^verbatim>\<open>_headsIndex\<close>) has the decimal indices as its keys.
\<close>

fun string_of_nat :: "nat \<Rightarrow> string" where
  "string_of_nat n =
     (if n < 10 then [char_of (48 + n)]
      else string_of_nat (n div 10) @ [char_of (48 + n mod 10)])"

definition array_obj :: "'v list \<Rightarrow> 'v obj" where
  "array_obj xs = zip (map string_of_nat [0..<length xs]) xs"

subsection \<open>\<^verbatim>\<open>Array.prototype.sort\<close>, \<^verbatim>\<open>slice\<close>\<close>

text \<open>
  \<^verbatim>\<open>xs.sort(cmp)\<close> with a comparator that returns a number: a stable insertion sort,
  each element of the array in turn moving left past the elements it compares less than
  (\<^verbatim>\<open>cmp(x, y) < 0\<close>). For a consistent comparator every stable sort gives this
  result. For a comparator that is not consistent the language leaves the order to the
  engine; the definition then follows the insertion step of V8's sort.
\<close>

fun sort_insert :: "('a \<Rightarrow> 'a \<Rightarrow> int) \<Rightarrow> 'a \<Rightarrow> 'a list \<Rightarrow> 'a list" where
  "sort_insert cmp x [] = [x]"
| "sort_insert cmp x (y # ys) =
     (if cmp x y < 0 then x # y # ys else y # sort_insert cmp x ys)"

definition js_sort :: "('a \<Rightarrow> 'a \<Rightarrow> int) \<Rightarrow> 'a list \<Rightarrow> 'a list" where
  "js_sort cmp xs = foldl (\<lambda>sorted x. sort_insert cmp x sorted) [] xs"

text \<open>\<^verbatim>\<open>xs.slice(start)\<close>: a negative start counts from the end, and both are clamped
  to the array.\<close>

definition slice :: "int \<Rightarrow> 'a list \<Rightarrow> 'a list" where
  "slice start xs =
     (let len = int (length xs);
          k = (if start < 0 then max (len + start) 0 else min start len)
      in drop (nat k) xs)"

subsection \<open>The sort order of entries\<close>

text \<open>
  Modelled from the spec: \<^verbatim>\<open>LastWriteWins\<close> of \<^verbatim>\<open>./log-sorting\<close>, which is not
  among the sources. The spec (4.3) orders two entries by clock time, then by clock id
  (lexicographically), then by hash; the comparator returns a negative number, zero or a
  positive number.
\<close>

definition compare_str :: "string \<Rightarrow> string \<Rightarrow> int" where
  "compare_str a b = (if a < b then - 1 else if a = b then 0 else 1)"

definition LastWriteWins :: "entry \<Rightarrow> entry \<Rightarrow> int" where
  "LastWriteWins a b =
     (if time (clock a) < time (clock b) then - 1
      else if time (clock a) > time (clock b) then 1
      else if compare_str (id_c (clock a)) (id_c (clock b)) \<noteq> 0
        then compare_str (id_c (clock a)) (id_c (clock b))
      else compare_str (hash a) (hash b))"

subsection \<open>\<^verbatim>\<open>Log.findHeads\<close>\<close>

text \<open>
  \<^verbatim>\<open>items\<close> maps every hash in some \<^verbatim>\<open>next\<close> list to the hash of the last entry
  that names it. \<^verbatim>\<open>compareIds\<close> returns a boolean, which \<^verbatim>\<open>sort\<close> reads as the
  number 1 or 0.
\<close>

definition indexReducer :: "string obj \<Rightarrow> entry \<Rightarrow> string obj" where
  "indexReducer res entry = foldl (\<lambda>res e. AList.update e (hash entry) res) res (next entry)"

definition compareIds :: "entry \<Rightarrow> entry \<Rightarrow> int" where
  "compareIds a b = (if id_c (clock a) > id_c (clock b) then 1 else 0)"

definition findHeads :: "entry list \<Rightarrow> entry list" where
  "findHeads entries =
     (let items = foldl indexReducer [] entries;
          exists = (\<lambda>e. map_of items (hash e) = None)
      in js_sort compareIds (filter exists entries))"

section \<open>The log\<close>

text \<open>
  The identity of the log's owner: \<^verbatim>\<open>log.js\<close> reads \<^verbatim>\<open>identity.id\<close> and
  \<^verbatim>\<open>identity.publicKey\<close>.
\<close>

record identity =
  id_i :: string
  publicKey :: string

text \<open>
  The fields of a \<^verbatim>\<open>Log\<close> instance that the operations read and write. The block
  store, the access controller and the verifier are collaborators; their decisions are
  arguments of the operations that call them.
\<close>

record log =
  id_l :: string
  identity_l :: identity
  entryIndex :: "entry obj"
  headsIndex :: "entry obj"
  nextsIndex :: "string obj"
  length_l :: nat
  clock_l :: clock

datatype error =
    IPFSNotDefinedError
  | AccessControllerRequired
  | IdentityRequired
  | LogNotDefinedError
  | SigningFailure
  | StorageFailure
  | AppendNotAllowed string
  | AppendNotPermitted
  | CouldNotValidateSignature string string string

text \<open>\<^verbatim>\<open>get (hash) { return this._entryIndex[hash] }\<close>\<close>

definition get :: "log \<Rightarrow> string \<Rightarrow> entry option" where
  "get l h = map_of (entryIndex l) h"

text \<open>\<^verbatim>\<open>get heads () { return Object.values(this._headsIndex).sort(LastWriteWins).reverse() }\<close>\<close>

definition heads :: "log \<Rightarrow> entry list" where
  "heads l = rev (js_sort LastWriteWins (obj_values (headsIndex l)))"

subsection \<open>\<^verbatim>\<open>traverse\<close>\<close>

text \<open>
  The state of the walk is the stack, the set \<^verbatim>\<open>traversed\<close> (the hashes that
  \<^verbatim>\<open>addToStack\<close> has put on the stack), the result object and the counter. The root
  entries start on the stack and are not in \<^verbatim>\<open>traversed\<close>. The loop returns the
  result; the model returns the final counter with it.
\<close>

definition addToStack :: "entry list \<times> string list \<Rightarrow> entry \<Rightarrow> entry list \<times> string list" where
  "addToStack st entry =
     (case st of (stack, traversed) \<Rightarrow>
        if hash entry \<in> set traversed then (stack, traversed)
        else (rev (js_sort LastWriteWins (entry # stack)), hash entry # traversed))"

definition traverse_measure :: "entry obj \<Rightarrow> entry list \<Rightarrow> string list \<Rightarrow> nat" where
  "traverse_measure idx stack traversed =
     length stack + 2 * card ((hash \<circ> snd) ` set idx - set traversed)"

lemma sort_insert_length: "length (sort_insert cmp x ys) = Suc (length ys)"
  by (induction ys) auto

lemma js_sort_length_aux:
  "length (foldl (\<lambda>sorted x. sort_insert cmp x sorted) acc xs) = length acc + length xs"
  by (induction xs arbitrary: acc) (auto simp: sort_insert_length)

lemma js_sort_length: "length (js_sort cmp xs) = length xs"
  by (simp add: js_sort_def js_sort_length_aux)

lemma addToStack_measure:
  assumes "e \<in> snd ` set idx"
  shows "traverse_measure idx (fst (addToStack st e)) (snd (addToStack st e))
           \<le> traverse_measure idx (fst st) (snd st)"
proof -
  obtain stack traversed where st: "st = (stack, traversed)" by (cases st)
  show ?thesis
  proof (cases "hash e \<in> set traversed")
    case True
    then show ?thesis by (simp add: addToStack_def st)
  next
    case False
    let ?U = "(hash \<circ> snd) ` set idx"
    have fin: "finite (?U - set traversed)" by simp
    have mem: "hash e \<in> ?U - set traversed" using assms False by auto
    have "?U - set (hash e # traversed) = (?U - set traversed) - {hash e}" by auto
    then have "card (?U - set (hash e # traversed)) < card (?U - set traversed)"
      using card_Diff1_less [OF fin mem] by simp
    then show ?thesis using False
      by (simp add: addToStack_def traverse_measure_def js_sort_length st)
  qed
qed

lemma foldl_addToStack_measure:
  "set es \<subseteq> snd ` set idx \<Longrightarrow>
   traverse_measure idx (fst (foldl addToStack st es)) (snd (foldl addToStack st es))
     \<le> traverse_measure idx (fst st) (snd st)"
proof (induction es arbitrary: st)
  case Nil
  then show ?case by simp
next
  case (Cons e es)
  have "traverse_measure idx (fst (foldl addToStack (addToStack st e) es))
          (snd (foldl addToStack (addToStack st e) es))
        \<le> traverse_measure idx (fst (addToStack st e)) (snd (addToStack st e))"
    using Cons by simp
  also have "\<dots> \<le> traverse_measure idx (fst st) (snd st)"
    using Cons.prems by (intro addToStack_measure) simp
  finally show ?case by simp
qed

lemma map_filter_map_of_subset: "set (List.map_filter (map_of idx) hs) \<subseteq> snd ` set idx"
  by (force simp: List.map_filter_def dest: map_of_SomeD)

function traverse_loop ::
  "entry obj \<Rightarrow> int \<Rightarrow> entry list \<Rightarrow> string list \<Rightarrow> entry obj \<Rightarrow> int \<Rightarrow> entry obj \<times> int" where
  "traverse_loop idx amount stack traversed result counter =
     (case stack of
        [] \<Rightarrow> (result, counter)
      | entry # rest \<Rightarrow>
          if amount = - 1 \<or> counter < amount then
            (let st = foldl addToStack (rest, traversed)
                        (List.map_filter (map_of idx) (next entry))
             in traverse_loop idx amount (fst st) (snd st)
                  (AList.update (hash entry) entry result) (counter + 1))
          else (result, counter))"
  by pat_completeness auto
termination
proof (relation "measure (\<lambda>(idx, amount, stack, traversed, result, counter).
                   traverse_measure idx stack traversed)", goal_cases)
  case 1
  then show ?case by simp
next
  case (2 idx amount stack traversed result counter entry rest st)
  have "traverse_measure idx (fst st) (snd st) \<le> traverse_measure idx rest traversed"
    using foldl_addToStack_measure [OF map_filter_map_of_subset, where st = "(rest, traversed)"]
      2 by simp
  also have "\<dots> < traverse_measure idx stack traversed"
    using 2 by (simp add: traverse_measure_def)
  finally show ?case by simp
qed

text \<open>
  \<^verbatim>\<open>traverse (rootEntries, amount = -1)\<close>. The test \<^verbatim>\<open>if (!entry) return\<close> inside
  the loop never fires on a stack of entries (an object is truthy).
\<close>

definition traverse :: "entry obj \<Rightarrow> entry list \<Rightarrow> int \<Rightarrow> entry obj" where
  "traverse idx rootEntries amount =
     fst (traverse_loop idx amount (rev (js_sort LastWriteWins rootEntries)) [] [] 0)"

text \<open>\<^verbatim>\<open>get values () { return Object.values(this.traverse(this.heads)).reverse() }\<close>\<close>

definition values_l :: "log \<Rightarrow> entry list" where
  "values_l l = rev (obj_values (traverse (entryIndex l) (heads l) (- 1)))"

subsection \<open>\<^verbatim>\<open>Entry.create\<close>\<close>

text \<open>
  Modelled from the spec: \<^verbatim>\<open>Entry.create\<close> of \<^verbatim>\<open>./entry\<close>, which is not among
  the sources. The spec (4.2) assembles the entry from the log id, the payload, the
  predecessor hashes, the clock and the identity, signs it, stores it in the block store
  and returns it with \<^verbatim>\<open>sig\<close> and \<^verbatim>\<open>hash\<close> populated; a signing error and a
  store error are both surfaced. The signer and the block store are the arguments
  \<open>sign\<close> and \<open>put\<close>, \<open>None\<close> being their failure.
\<close>

definition Entry_create ::
  "(entry \<Rightarrow> string option) \<Rightarrow> (entry \<Rightarrow> string option) \<Rightarrow> identity \<Rightarrow> string \<Rightarrow> string \<Rightarrow>
     string list \<Rightarrow> clock \<Rightarrow> error + entry" where
  "Entry_create sign put ident lid data nexts clk =
     (let e = \<lparr>hash = [], id_e = lid, payload = data, next = nexts, clock = clk,
                key = publicKey ident, sig = []\<rparr>
      in case sign e of
           None \<Rightarrow> Inl SigningFailure
         | Some s \<Rightarrow>
             (case put (e\<lparr>sig := s\<rparr>) of
                None \<Rightarrow> Inl StorageFailure
              | Some h \<Rightarrow> Inr (e\<lparr>sig := s, hash := h\<rparr>)))"

subsection \<open>\<^verbatim>\<open>append\<close>\<close>

text \<open>
  \<^verbatim>\<open>async append (data, pointerCount = 1)\<close>. The log is mutated in place and an
  exception leaves the caller with the log as it is at the throw, so the model returns
  the outcome (the error thrown or the entry returned) together with the log after the
  call. \<open>canAppend\<close> is the access controller's decision.
\<close>

definition append ::
  "(entry \<Rightarrow> string option) \<Rightarrow> (entry \<Rightarrow> string option) \<Rightarrow> (entry \<Rightarrow> bool) \<Rightarrow>
     log \<Rightarrow> string \<Rightarrow> int \<Rightarrow> (error + entry) \<times> log" where
  "append sign put canAppend this data pointerCount =
     (let newTime = js_add (max (time (clock_l this)) (foldl maxClockTimeReducer 0 (heads this))) 1;
          this1 = this\<lparr>clock_l := \<lparr>id_c = id_c (clock_l this), time = newTime\<rparr>\<rparr>;
          references = traverse (entryIndex this1) (heads this1)
                         (max pointerCount (int (length (heads this1))));
          nexts = obj_keys (assign (assign [] (headsIndex this1)) references)
      in case Entry_create sign put (identity_l this1) (id_l this1) data nexts (clock_l this1) of
           Inl err \<Rightarrow> (Inl err, this1)
         | Inr entry \<Rightarrow>
             if \<not> canAppend entry then (Inl (AppendNotAllowed (id_i (identity_l this1))), this1)
             else (Inr entry,
                   this1\<lparr>entryIndex := AList.update (hash entry) entry (entryIndex this1),
                         nextsIndex := foldl (\<lambda>res e. AList.update e (hash entry) res)
                                         (nextsIndex this1) nexts,
                         headsIndex := [(hash entry, entry)],
                         length_l := length_l this1 + 1\<rparr>))"

subsection \<open>\<^verbatim>\<open>Log.difference\<close>\<close>

definition pushToStack ::
  "entry obj \<Rightarrow> string list \<times> string list \<Rightarrow> string \<Rightarrow> string list \<times> string list" where
  "pushToStack bIndex st h =
     (case st of (stack, traversed) \<Rightarrow>
        if h \<notin> set traversed \<and> map_of bIndex h = None then (stack @ [h], h # traversed)
        else (stack, traversed))"

definition difference_measure :: "entry obj \<Rightarrow> string list \<Rightarrow> string list \<Rightarrow> nat" where
  "difference_measure aIndex stack traversed =
     length stack + 2 * card ((\<Union>e \<in> snd ` set aIndex. set (next e)) - set traversed)"

lemma pushToStack_measure:
  assumes "h \<in> (\<Union>e \<in> snd ` set aIndex. set (next e))"
  shows "difference_measure aIndex (fst (pushToStack bIndex st h)) (snd (pushToStack bIndex st h))
           \<le> difference_measure aIndex (fst st) (snd st)"
proof -
  obtain stack traversed where st: "st = (stack, traversed)" by (cases st)
  show ?thesis
  proof (cases "h \<notin> set traversed \<and> map_of bIndex h = None")
    case False
    then show ?thesis by (auto simp: pushToStack_def st)
  next
    case True
    let ?U = "(\<Union>e \<in> snd ` set aIndex. set (next e))"
    have fin: "finite (?U - set traversed)" by simp
    have mem: "h \<in> ?U - set traversed" using assms True by auto
    have "?U - set (h # traversed) = (?U - set traversed) - {h}" by auto
    then have "card (?U - set (h # traversed)) < card (?U - set traversed)"
      using card_Diff1_less [OF fin mem] by simp
    then show ?thesis using True
      by (simp add: pushToStack_def difference_measure_def st)
  qed
qed

lemma foldl_pushToStack_measure:
  "set hs \<subseteq> (\<Union>e \<in> snd ` set aIndex. set (next e)) \<Longrightarrow>
   difference_measure aIndex (fst (foldl (pushToStack bIndex) st hs))
       (snd (foldl (pushToStack bIndex) st hs))
     \<le> difference_measure aIndex (fst st) (snd st)"
proof (induction hs arbitrary: st)
  case Nil
  then show ?case by simp
next
  case (Cons h hs)
  have "difference_measure aIndex (fst (foldl (pushToStack bIndex) (pushToStack bIndex st h) hs))
          (snd (foldl (pushToStack bIndex) (pushToStack bIndex st h) hs))
        \<le> difference_measure aIndex (fst (pushToStack bIndex st h)) (snd (pushToStack bIndex st h))"
    using Cons by simp
  also have "\<dots> \<le> difference_measure aIndex (fst st) (snd st)"
    using Cons.prems by (intro pushToStack_measure) simp
  finally show ?case by simp
qed

lemma difference_measure_mark:
  "difference_measure aIndex stack (h # traversed) \<le> difference_measure aIndex stack traversed"
proof -
  have "card ((\<Union>e \<in> snd ` set aIndex. set (next e)) - set (h # traversed))
          \<le> card ((\<Union>e \<in> snd ` set aIndex. set (next e)) - set traversed)"
    by (intro card_mono) auto
  then show ?thesis by (simp add: difference_measure_def)
qed

text \<open>
  The loop of \<^verbatim>\<open>difference (a, b)\<close>: \<^verbatim>\<open>stack.shift()\<close> takes the first hash,
  \<^verbatim>\<open>pushToStack\<close> appends at the end. An entry is an object, so \<^verbatim>\<open>entry\<close> and
  \<^verbatim>\<open>!b.get(hash)\<close> test presence.
\<close>

function difference_loop ::
  "entry obj \<Rightarrow> entry obj \<Rightarrow> string \<Rightarrow> string list \<Rightarrow> string list \<Rightarrow> entry obj \<Rightarrow> entry obj" where
  "difference_loop aIndex bIndex bId stack traversed res =
     (case stack of
        [] \<Rightarrow> res
      | h # rest \<Rightarrow>
          (case map_of aIndex h of
             None \<Rightarrow> difference_loop aIndex bIndex bId rest traversed res
           | Some entry \<Rightarrow>
               if map_of bIndex h = None \<and> id_e entry = bId then
                 (let st = foldl (pushToStack bIndex) (rest, hash entry # traversed) (next entry)
                  in difference_loop aIndex bIndex bId (fst st) (snd st)
                       (AList.update (hash entry) entry res))
               else difference_loop aIndex bIndex bId rest traversed res))"
  by pat_completeness auto
termination
proof (relation "measure (\<lambda>(aIndex, bIndex, bId, stack, traversed, res).
                   difference_measure aIndex stack traversed)", goal_cases)
  case 1
  then show ?case by simp
next
  case (2 aIndex bIndex bId stack traversed res h rest)
  then show ?case by (simp add: difference_measure_def)
next
  case (3 aIndex bIndex bId stack traversed res h rest entry st)
  have "entry \<in> snd ` set aIndex"
    using 3 by (force dest: map_of_SomeD)
  then have sub: "set (next entry) \<subseteq> (\<Union>e \<in> snd ` set aIndex. set (next e))" by blast
  have "difference_measure aIndex (fst st) (snd st)
          \<le> difference_measure aIndex rest (hash entry # traversed)"
    using foldl_pushToStack_measure [OF sub, where st = "(rest, hash entry # traversed)"] 3
    by simp
  also have "\<dots> \<le> difference_measure aIndex rest traversed"
    by (rule difference_measure_mark)
  also have "\<dots> < difference_measure aIndex stack traversed"
    using 3 by (simp add: difference_measure_def)
  finally show ?case by simp
next
  case (4 aIndex bIndex bId stack traversed res h rest entry)
  then show ?case by (simp add: difference_measure_def)
qed

definition difference :: "log \<Rightarrow> log \<Rightarrow> entry obj" where
  "difference a b =
     difference_loop (entryIndex a) (entryIndex b) (id_l b) (obj_keys (headsIndex a)) [] []"

subsection \<open>\<^verbatim>\<open>join\<close>\<close>

text \<open>
  \<^verbatim>\<open>!x\<close> for \<^verbatim>\<open>x\<close> a string or \<^verbatim>\<open>undefined\<close>: true for \<^verbatim>\<open>undefined\<close> and for
  the empty string.
\<close>

definition falsy :: "string option \<Rightarrow> bool" where
  "falsy x = (case x of None \<Rightarrow> True | Some s \<Rightarrow> s = [])"

text \<open>
  \<^verbatim>\<open>const addToNextsIndex = e => { const entry = this.get(e.hash); if (!entry)
  this._length++; e.next.forEach(a => (this._nextsIndex[a] = e.hash)) }\<close>, on the pair of
  \<^verbatim>\<open>_length\<close> and \<^verbatim>\<open>_nextsIndex\<close>; \<^verbatim>\<open>_entryIndex\<close> is not yet changed while it
  runs.
\<close>

definition addToNextsIndex :: "entry obj \<Rightarrow> nat \<times> string obj \<Rightarrow> entry \<Rightarrow> nat \<times> string obj" where
  "addToNextsIndex eIndex st e =
     (case st of (len, nexts) \<Rightarrow>
        ((if map_of eIndex (hash e) = None then len + 1 else len),
         foldl (\<lambda>res a. AList.update a (hash e) res) nexts (next e)))"

text \<open>The merge of the indices and of the heads (lines 383 to 403), once both gates have
  passed.\<close>

definition join_merge :: "log \<Rightarrow> log \<Rightarrow> entry obj \<Rightarrow> log" where
  "join_merge this other newItems =
     (let st = foldl (addToNextsIndex (entryIndex this)) (length_l this, nextsIndex this)
                 (obj_values newItems);
          nextsIndex1 = snd st;
          entryIndex1 = assign (entryIndex this) newItems;
          nextsFromNewItems = foldl (\<lambda>res acc. res @ acc) [] (map next (obj_values newItems));
          notReferencedByNewItems = (\<lambda>e. falsy (find (\<lambda>a. a = hash e) nextsFromNewItems));
          notInCurrentNexts = (\<lambda>e. falsy (map_of nextsIndex1 (hash e)));
          mergedHeads =
            foldl uniqueEntriesReducer []
              (filter notInCurrentNexts (filter notReferencedByNewItems
                (findHeads (obj_values (assign (assign [] (headsIndex this)) (headsIndex other))))))
      in this\<lparr>length_l := fst st, nextsIndex := nextsIndex1, entryIndex := entryIndex1,
              headsIndex := mergedHeads\<rparr>)"

text \<open>\<^verbatim>\<open>if (size > -1) { ... }\<close> (lines 406 to 412). \<^verbatim>\<open>_headsIndex\<close> receives the
  array that \<^verbatim>\<open>findHeads\<close> returns.\<close>

definition join_slice :: "log \<Rightarrow> int \<Rightarrow> log" where
  "join_slice this sz =
     (if sz > - 1 then
        (let tmp = slice (- sz) (values_l this);
             entryIndex1 = foldl uniqueEntriesReducer [] tmp
         in this\<lparr>entryIndex := entryIndex1,
                 headsIndex := array_obj (findHeads tmp),
                 length_l := length (obj_values entryIndex1)\<rparr>)
      else this)"

text \<open>The clock update (lines 415 and 416).\<close>

definition join_clock :: "log \<Rightarrow> log" where
  "join_clock this =
     (let maxClock = foldl maxClockTimeReducer 0 (obj_values (headsIndex this))
      in this\<lparr>clock_l := \<lparr>id_c = id_c (clock_l this),
                             time = max (time (clock_l this)) maxClock\<rparr>\<rparr>)"

text \<open>
  \<^verbatim>\<open>async join (log, size = -1)\<close>. The argument is \<open>None\<close> when it is not defined;
  a value of type \<^typ>\<open>log\<close> has an id, heads and an entry index, so \<^verbatim>\<open>Log.isLog\<close>
  holds of it. The outcome is the error thrown or the value returned (\<open>None\<close> for the
  bare \<^verbatim>\<open>return\<close>, the log itself for \<^verbatim>\<open>return this\<close>), paired with the log after
  the call. \<open>canAppend\<close> is the access controller's decision and \<open>verify\<close> is
  \<^verbatim>\<open>Entry.verify\<close>; \<^verbatim>\<open>pMap\<close> with concurrency 1 runs the first gate over all the new
  entries, then the second.
\<close>

definition join ::
  "(entry \<Rightarrow> bool) \<Rightarrow> (entry \<Rightarrow> bool) \<Rightarrow> log \<Rightarrow> log option \<Rightarrow> int \<Rightarrow> (error + log option) \<times> log" where
  "join canAppend verify this arg sz =
     (case arg of
        None \<Rightarrow> (Inl LogNotDefinedError, this)
      | Some other \<Rightarrow>
          if id_l this \<noteq> id_l other then (Inr None, this)
          else
            (let newItems = difference other this;
                 entriesToJoin = obj_values newItems
             in if \<not> list_all canAppend entriesToJoin then (Inl AppendNotPermitted, this)
                else
                  (case find (\<lambda>e. \<not> verify e) entriesToJoin of
                     Some e \<Rightarrow> (Inl (CouldNotValidateSignature (sig e) (hash e) (key e)), this)
                   | None \<Rightarrow>
                       (let this1 = join_clock (join_slice (join_merge this other newItems) sz)
                        in (Inr (Some this1), this1)))))"

subsection \<open>The constructor\<close>

text \<open>
  \<^verbatim>\<open>constructor (ipfs, access, identity, logId, entries, heads, clock)\<close>. An argument
  that is not defined is \<open>None\<close>; \<open>randomId\<close> is the value of \<^verbatim>\<open>randomId()\<close>.
  \<^verbatim>\<open>logId || randomId()\<close> takes the random id for the empty string too, and
  \<^verbatim>\<open>heads || Log.findHeads(entries)\<close> keeps an empty array of heads (an array is
  truthy).
\<close>

definition new_Log ::
  "'s option \<Rightarrow> 'a option \<Rightarrow> identity option \<Rightarrow> string option \<Rightarrow> entry list option \<Rightarrow>
     entry list option \<Rightarrow> clock option \<Rightarrow> string \<Rightarrow> error + log" where
  "new_Log ipfs access ident logId entries heads0 clock0 randomId =
     (if ipfs = None then Inl IPFSNotDefinedError
      else if access = None then Inl AccessControllerRequired
      else case ident of
        None \<Rightarrow> Inl IdentityRequired
      | Some idn \<Rightarrow>
          (let lid = (case logId of None \<Rightarrow> randomId | Some s \<Rightarrow> if s = [] then randomId else s);
               entries1 = (case entries of None \<Rightarrow> [] | Some es \<Rightarrow> es);
               entryIndex1 = foldl uniqueEntriesReducer [] entries1;
               heads1 = (case heads0 of None \<Rightarrow> findHeads entries1 | Some hs \<Rightarrow> hs);
               headsIndex1 = foldl uniqueEntriesReducer [] heads1;
               nextsIndex1 = foldl (\<lambda>res e. foldl (\<lambda>res a. AList.update a (hash e) res) res (next e))
                               [] entries1;
               this = \<lparr>id_l = lid, identity_l = idn, entryIndex = entryIndex1,
                       headsIndex = headsIndex1, nextsIndex = nextsIndex1,
                       length_l = length entries1,
                       clock_l = \<lparr>id_c = publicKey idn, time = 0\<rparr>\<rparr>;
               maxTime = max (case clock0 of None \<Rightarrow> 0 | Some c \<Rightarrow> time c)
                             (foldl maxClockTimeReducer 0 (heads this))
           in Inr (this\<lparr>clock_l := \<lparr>id_c = publicKey idn, time = maxTime\<rparr>\<rparr>)))"

declare traverse_loop.simps [simp del]
declare difference_loop.simps [simp del]

section \<open>Closed, consistent logs\<close>










section \<open>Example entries and logs\<close>

text \<open>
  Three entries of one writer in a chain (\<open>entry2\<close> names \<open>entry1\<close>, which names
  \<open>entry0\<close>), an entry of a second writer, and logs over them, used to run the
  operations on concrete inputs.
\<close>

definition example_entry :: "string \<Rightarrow> string list \<Rightarrow> string \<Rightarrow> int \<Rightarrow> entry" where
  "example_entry h ns cid t =
     \<lparr>hash = h, id_e = ''X'', payload = ''p'', next = ns, clock = \<lparr>id_c = cid, time = t\<rparr>,
      key = cid, sig = ''s''\<rparr>"

definition entry0 :: entry where "entry0 = example_entry ''h0'' [] ''A'' 1"
definition entry1 :: entry where "entry1 = example_entry ''h1'' [''h0''] ''A'' 2"
definition entry2 :: entry where "entry2 = example_entry ''h2'' [''h1''] ''A'' 3"
definition entryB :: entry where "entryB = example_entry ''hB'' [] ''B'' 1"

definition example_identity :: identity where
  "example_identity = \<lparr>id_i = ''userA'', publicKey = ''A''\<rparr>"

text \<open>\<^verbatim>\<open>new Log(ipfs, access, identity, lid, entries)\<close>\<close>

definition example_log :: "string \<Rightarrow> entry list \<Rightarrow> error + log" where
  "example_log lid es =
     new_Log (Some ()) (Some ()) (Some example_identity) (Some lid) (Some es) None None ''0''"

text \<open>The empty log \<open>X\<close>, the log \<open>X\<close> of \<open>entry0\<close>, and the empty log \<open>Y\<close>.\<close>

definition log_empty :: log where
  "log_empty = \<lparr>id_l = ''X'', identity_l = example_identity, entryIndex = [], headsIndex = [],
                 nextsIndex = [], length_l = 0, clock_l = \<lparr>id_c = ''A'', time = 0\<rparr>\<rparr>"

definition log_one :: log where
  "log_one = \<lparr>id_l = ''X'', identity_l = example_identity, entryIndex = [(''h0'', entry0)],
               headsIndex = [(''h0'', entry0)], nextsIndex = [], length_l = 1,
               clock_l = \<lparr>id_c = ''A'', time = 1\<rparr>\<rparr>"

definition log_other_id :: log where
  "log_other_id = log_empty\<lparr>id_l := ''Y''\<rparr>"

text \<open>The entry that \<^verbatim>\<open>append('p1')\<close> creates on the log of \<open>entry0\<close>, the log after
  that append, and the index of the chain of three entries.\<close>

definition entry_new :: entry where
  "entry_new = \<lparr>hash = ''h2p1'', id_e = ''X'', payload = ''p1'', next = [''h0''],
                 clock = \<lparr>id_c = ''A'', time = 2\<rparr>, key = ''A'', sig = ''sig''\<rparr>"

definition log_two :: log where
  "log_two = \<lparr>id_l = ''X'', identity_l = example_identity,
               entryIndex = [(''h0'', entry0), (''h2p1'', entry_new)],
               headsIndex = [(''h2p1'', entry_new)], nextsIndex = [(''h0'', ''h2p1'')],
               length_l = 2, clock_l = \<lparr>id_c = ''A'', time = 2\<rparr>\<rparr>"

definition chain_index :: "entry obj" where
  "chain_index = [(''h0'', entry0), (''h1'', entry1), (''h2'', entry2)]"

text \<open>A signer and a block store that succeed, and the two constant access decisions.\<close>

definition sign_ok :: "entry \<Rightarrow> string option" where
  "sign_ok e = Some ''sig''"

definition put_ok :: "entry \<Rightarrow> string option" where
  "put_ok e = Some (''h'' @ string_of_nat (nat (time (clock e))) @ payload e)"

definition allow :: "entry \<Rightarrow> bool" where
  "allow e = True"

definition deny :: "entry \<Rightarrow> bool" where
  "deny e = False"

text \<open>
  An entry of the second writer that names \<open>entry0\<close>; the log of \<open>entry1\<close> alone
  (its \<^verbatim>\<open>next\<close>, \<open>entry0\<close>, is a tail reference), the log of \<open>entry0\<close> and
  \<open>entry1\<close>, the log of \<open>entry0\<close> and the second writer's entry; and the log after
  \<^verbatim>\<open>l.join(other)\<close> with an access controller and a verifier that accept.
\<close>

definition entry_fork :: entry where
  "entry_fork = example_entry ''hf'' [''h0''] ''B'' 2"

definition log_tail :: log where
  "log_tail = \<lparr>id_l = ''X'', identity_l = example_identity, entryIndex = [(''h1'', entry1)],
                headsIndex = [(''h1'', entry1)], nextsIndex = [(''h0'', ''h1'')], length_l = 1,
                clock_l = \<lparr>id_c = ''A'', time = 2\<rparr>\<rparr>"

definition log_chain :: log where
  "log_chain = \<lparr>id_l = ''X'', identity_l = example_identity,
                 entryIndex = [(''h0'', entry0), (''h1'', entry1)],
                 headsIndex = [(''h1'', entry1)], nextsIndex = [(''h0'', ''h1'')], length_l = 2,
                 clock_l = \<lparr>id_c = ''A'', time = 2\<rparr>\<rparr>"

definition log_fork :: log where
  "log_fork = \<lparr>id_l = ''X'', identity_l = example_identity,
                entryIndex = [(''h0'', entry0), (''hf'', entry_fork)],
                headsIndex = [(''hf'', entry_fork)], nextsIndex = [(''h0'', ''hf'')], length_l = 2,
                clock_l = \<lparr>id_c = ''A'', time = 2\<rparr>\<rparr>"

definition joined :: "log \<Rightarrow> log \<Rightarrow> log" where
  "joined l other = snd (join allow allow l (Some other) (- 1))"


text \<open>
  The empty log \<open>X\<close> built with the clock \<^verbatim>\<open>new Clock('A', 2 ** 53)\<close>, a block store
  that answers with one hash, and the entry that \<^verbatim>\<open>append('p1')\<close> creates on that log.
\<close>

definition log_big :: log where
  "log_big = \<lparr>id_l = ''X'', identity_l = example_identity, entryIndex = [], headsIndex = [],
               nextsIndex = [], length_l = 0,
               clock_l = \<lparr>id_c = ''A'', time = 9007199254740992\<rparr>\<rparr>"



text \<open>
  The names of the properties of \<^verbatim>\<open>Object.prototype\<close>: a lookup \<^verbatim>\<open>o[k]\<close> in a plain
  object finds an inherited value under these keys when \<^verbatim>\<open>o\<close> has no property of its
  own there.
\<close>

definition prototype_names :: "string list" where
  "prototype_names =
     [''constructor'', ''__defineGetter__'', ''__defineSetter__'', ''hasOwnProperty'',
      ''__lookupGetter__'', ''__lookupSetter__'', ''isPrototypeOf'', ''propertyIsEnumerable'',
      ''toString'', ''valueOf'', ''__proto__'', ''toLocaleString'']"

text \<open>Sorted by \<^verbatim>\<open>clock.id\<close> in descending string order.\<close>

definition sorted_by_id_desc :: "entry list \<Rightarrow> bool" where
  "sorted_by_id_desc es = sorted_wrt (\<lambda>a b. id_c (clock a) \<ge> id_c (clock b)) es"

section \<open>Properties\<close>

subsection \<open>Sorting, heads and clock times\<close>

lemma mset_sort_insert: "mset (sort_insert cmp x ys) = add_mset x (mset ys)"
  by (induction ys) auto

lemma mset_js_sort_aux:
  "mset (foldl (\<lambda>sorted x. sort_insert cmp x sorted) acc xs) = mset acc + mset xs"
  by (induction xs arbitrary: acc) (auto simp: mset_sort_insert)

lemma mset_js_sort: "mset (js_sort cmp xs) = mset xs"
  by (simp add: js_sort_def mset_js_sort_aux)

lemma set_js_sort: "set (js_sort cmp xs) = set xs"
  using mset_js_sort [of cmp xs] by (metis set_mset_mset)

lemma set_heads: "set (heads l) = set (obj_values (headsIndex l))"
  by (simp add: heads_def set_js_sort)

lemma foldl_maxClock_lower: "a \<le> foldl maxClockTimeReducer a xs"
proof (induction xs arbitrary: a)
  case Nil
  then show ?case by simp
next
  case (Cons x xs)
  have "a \<le> maxClockTimeReducer a x" by (simp add: maxClockTimeReducer_def)
  also have "\<dots> \<le> foldl maxClockTimeReducer (maxClockTimeReducer a x) xs" by (rule Cons.IH)
  finally show ?case by simp
qed


lemma foldl_maxClock_less:
  "a < b \<Longrightarrow> \<forall>e \<in> set xs. time (clock e) < b \<Longrightarrow> foldl maxClockTimeReducer a xs < b"
  by (induction xs arbitrary: a) (simp_all add: maxClockTimeReducer_def)

text \<open>The addition is exact up to \<open>2 ^ 53\<close> and rounds above.\<close>

lemma ulp_of_small: "a < 2 ^ 53 \<Longrightarrow> ulp_of a = 1"
  by (subst ulp_of.simps) simp

lemma to_double_small: "\<bar>n\<bar> < 2 ^ 53 \<Longrightarrow> to_double n = n"
proof -
  assume a: "\<bar>n\<bar> < 2 ^ 53"
  then have "ulp_of \<bar>n\<bar> = 1" by (rule ulp_of_small)
  then show ?thesis by (simp add: to_double_def Let_def mult_sgn_abs)
qed

lemma to_double_examples:
  "to_double (2 ^ 53) = 2 ^ 53"
  "to_double (2 ^ 53 + 1) = 2 ^ 53"
  "to_double (2 ^ 53 + 3) = 2 ^ 53 + 4"
  "to_double (2 ^ 54 + 1) = 2 ^ 54"
  "to_double (- (2 ^ 53) - 1) = - (2 ^ 53)"
  by code_simp+

lemma js_add_one_exact: "0 \<le> m \<Longrightarrow> m < 2 ^ 53 \<Longrightarrow> js_add m 1 = m + 1"
proof -
  assume m: "0 \<le> m" "m < 2 ^ 53"
  show ?thesis
  proof (cases "m + 1 = 2 ^ 53")
    case True
    show ?thesis unfolding js_add_def True by (rule to_double_examples(1))
  next
    case False
    then have "\<bar>m + 1\<bar> < 2 ^ 53" using m by simp
    then show ?thesis unfolding js_add_def by (rule to_double_small)
  qed
qed

lemma new_time_exact:
  assumes "time (clock_l this) < 2 ^ 53"
    and "\<forall>h \<in> set (obj_values (headsIndex this)). time (clock h) < 2 ^ 53"
  shows "js_add (max (time (clock_l this)) (foldl maxClockTimeReducer 0 (heads this))) 1
           = max (time (clock_l this)) (foldl maxClockTimeReducer 0 (heads this)) + 1"
proof -
  have "foldl maxClockTimeReducer 0 (heads this) < 2 ^ 53"
    using assms(2) by (intro foldl_maxClock_less) (simp_all add: set_heads)
  moreover have "0 \<le> foldl maxClockTimeReducer 0 (heads this)"
    by (rule foldl_maxClock_lower)
  ultimately show ?thesis using assms(1) by (intro js_add_one_exact) simp_all
qed

lemma log_big_constructed:
  "new_Log (Some ()) (Some ()) (Some example_identity) (Some ''X'') (Some []) None
     (Some \<lparr>id_c = ''A'', time = 2 ^ 53\<rparr>) ''0'' = Inr log_big"
  by code_simp

lemma example_logs_constructed:
  "example_log ''X'' [] = Inr log_empty"
  "example_log ''X'' [entry0] = Inr log_one"
  "example_log ''Y'' [] = Inr log_other_id"
  by (simp_all add: example_log_def new_Log_def log_empty_def log_one_def log_other_id_def
      example_identity_def findHeads_def js_sort_def heads_def obj_values_def entry0_def
      example_entry_def uniqueEntriesReducer_def indexReducer_def maxClockTimeReducer_def
      Let_def)

subsection \<open>\<^verbatim>\<open>join\<close>: the id check and the two gates\<close>

text \<open>
  Claim C5. A join with a log whose id differs from this log's id returns without an
  error (the bare \<^verbatim>\<open>return\<close>) and leaves every field of this log as it was.
\<close>

theorem join_other_id_is_noop:
  "id_l this \<noteq> id_l other \<Longrightarrow> join canAppend verify this (Some other) sz = (Inr None, this)"
  by (simp add: join_def)

theorem join_other_id_is_noop_witness:
  "id_l log_one \<noteq> id_l log_other_id
     \<and> join allow allow log_one (Some log_other_id) (- 1) = (Inr None, log_one)"
  using join_other_id_is_noop [of log_one log_other_id allow allow "- 1"]
  by (simp add: log_one_def log_other_id_def log_empty_def)

text \<open>
  Claim C1. When the other log has the same id and the access controller denies, or the
  verifier rejects, some entry of the difference, the join fails with an error and the
  joining log is unchanged: its entry index, heads index, nexts index, length and clock
  (and every other field) are those before the call.
\<close>

theorem join_gate_failure_leaves_log:
  assumes "id_l this = id_l other"
    and "\<exists>e \<in> set (obj_values (difference other this)). \<not> canAppend e \<or> \<not> verify e"
  shows "\<exists>err. join canAppend verify this (Some other) sz = (Inl err, this)"
proof (cases "list_all canAppend (obj_values (difference other this))")
  case False
  then show ?thesis using assms(1) by (simp add: join_def Let_def)
next
  case True
  then have "\<exists>e \<in> set (obj_values (difference other this)). \<not> verify e"
    using assms(2) by (auto simp: list_all_iff)
  then obtain e where "find (\<lambda>e. \<not> verify e) (obj_values (difference other this)) = Some e"
    by (cases "find (\<lambda>e. \<not> verify e) (obj_values (difference other this))")
       (auto simp: find_None_iff)
  then show ?thesis using assms(1) True by (simp add: join_def Let_def)
qed

lemma difference_one_empty: "difference log_one log_empty = [(''h0'', entry0)]"
  by code_simp

theorem join_gate_failure_leaves_log_witness:
  "id_l log_empty = id_l log_one
     \<and> (\<exists>e \<in> set (obj_values (difference log_one log_empty)). \<not> deny e \<or> \<not> allow e)
     \<and> (\<exists>err. join deny allow log_empty (Some log_one) (- 1) = (Inl err, log_empty))"
proof -
  have ids: "id_l log_empty = id_l log_one"
    by (simp add: log_one_def log_empty_def)
  have bad: "\<exists>e \<in> set (obj_values (difference log_one log_empty)). \<not> deny e \<or> \<not> allow e"
    by (simp add: difference_one_empty obj_values_def deny_def)
  show ?thesis
    using join_gate_failure_leaves_log [OF ids bad, of "- 1"] ids bad by blast
qed

text \<open>The signature gate alone, on the same logs: the error names the entry.\<close>

lemma join_signature_gate_example:
  "join allow deny log_empty (Some log_one) (- 1)
     = (Inl (CouldNotValidateSignature ''s'' ''h0'' ''A''), log_empty)"
  by code_simp

subsection \<open>\<^verbatim>\<open>append\<close>\<close>

text \<open>
  Claim C2, as stated, fails: \<^verbatim>\<open>append\<close> assigns \<^verbatim>\<open>this._clock\<close> before it creates
  the entry and asks the access controller, so a denied append leaves the clock advanced.
  On the log of \<open>entry0\<close> (clock time 1) a denied append fails and the clock is no longer
  the one before the call.
\<close>

theorem append_failure_advances_clock:
  "fst (append sign_ok put_ok deny log_one ''p1'' 1) = Inl (AppendNotAllowed ''userA'')
     \<and> clock_l (snd (append sign_ok put_ok deny log_one ''p1'' 1)) \<noteq> clock_l log_one"
  by code_simp

text \<open>
  Claim C2, amended. Whenever \<^verbatim>\<open>append\<close> fails (the access controller denies the entry,
  or signing or the block-store write fails), the entry index, the heads index, the nexts
  index and the length are those before the call, and so is the id of the clock; the time
  of the clock has been set to \<^verbatim>\<open>Math.max(clock.time, head times) + 1\<close> as JavaScript
  adds, which is one more than that maximum when the clock time and the head times are
  below \<open>2 ^ 53\<close>.
\<close>

theorem append_failure_keeps_indices:
  assumes "fst (append sign put canAppend this data pointerCount) = Inl err"
  shows "snd (append sign put canAppend this data pointerCount)
           = this\<lparr>clock_l := \<lparr>id_c = id_c (clock_l this),
                time = js_add (max (time (clock_l this))
                                   (foldl maxClockTimeReducer 0 (heads this))) 1\<rparr>\<rparr>
     \<and> (time (clock_l this) < 2 ^ 53
          \<and> (\<forall>h \<in> set (obj_values (headsIndex this)). time (clock h) < 2 ^ 53)
        \<longrightarrow> time (clock_l (snd (append sign put canAppend this data pointerCount)))
              = max (time (clock_l this)) (foldl maxClockTimeReducer 0 (heads this)) + 1)"
proof -
  have eq: "snd (append sign put canAppend this data pointerCount)
           = this\<lparr>clock_l := \<lparr>id_c = id_c (clock_l this),
                time = js_add (max (time (clock_l this))
                                   (foldl maxClockTimeReducer 0 (heads this))) 1\<rparr>\<rparr>"
    using assms by (auto simp: append_def Let_def split: sum.splits if_splits)
  show ?thesis using new_time_exact [of this] by (simp add: eq)
qed

lemma append_denied_example:
  "fst (append sign_ok put_ok deny log_one ''p1'' 1) = Inl (AppendNotAllowed ''userA'')"
  by code_simp

lemma log_one_times:
  "time (clock_l log_one) = 1" "obj_values (headsIndex log_one) = [entry0]"
  "time (clock entry0) = 1" "heads log_one = [entry0]"
  by code_simp+

theorem append_failure_keeps_indices_witness:
  "fst (append sign_ok put_ok deny log_one ''p1'' 1) = Inl (AppendNotAllowed ''userA'')
   \<and> snd (append sign_ok put_ok deny log_one ''p1'' 1)
       = log_one\<lparr>clock_l := \<lparr>id_c = ''A'', time = 2\<rparr>\<rparr>
   \<and> time (clock_l (snd (append sign_ok put_ok deny log_one ''p1'' 1))) = 2"
proof -
  have "js_add 1 1 = 2" using js_add_one_exact [of 1] by simp
  then show ?thesis
    using append_failure_keeps_indices [OF append_denied_example] append_denied_example
    by (simp add: log_one_times maxClockTimeReducer_def) (simp add: log_one_def)
qed

lemma append_example: "append sign_ok put_ok allow log_one ''p1'' 1 = (Inr entry_new, log_two)"
  by code_simp




text \<open>
  Claim C10. A successful append returns the entry that \<^verbatim>\<open>Entry.create\<close> made (an
  entry, not the log), which carries the log's new clock and, as \<^verbatim>\<open>next\<close>, the keys of
  the heads index merged with the traversed references; \<^verbatim>\<open>get\<close> with the hash of that
  entry, on the log after the call, returns it.
\<close>

theorem append_returns_entry:
  assumes "append sign put canAppend this data pointerCount = (Inr e, this')"
  shows "Entry_create sign put (identity_l this) (id_l this) data (next e) (clock_l this') = Inr e
     \<and> get this' (hash e) = Some e
     \<and> clock e = clock_l this'
     \<and> next e = obj_keys (assign (assign [] (headsIndex this))
                   (traverse (entryIndex this) (heads this)
                      (max pointerCount (int (length (heads this))))))"
proof -
  let ?nexts = "obj_keys (assign (assign [] (headsIndex this))
                   (traverse (entryIndex this) (heads this)
                      (max pointerCount (int (length (heads this))))))"
  let ?clk = "\<lparr>id_c = id_c (clock_l this),
                time = js_add (max (time (clock_l this))
                                   (foldl maxClockTimeReducer 0 (heads this))) 1\<rparr>"
  have cr: "Entry_create sign put (identity_l this) (id_l this) data ?nexts ?clk = Inr e"
    and l: "this' = this\<lparr>clock_l := ?clk,
                entryIndex := AList.update (hash e) e (entryIndex this),
                nextsIndex := foldl (\<lambda>res a. AList.update a (hash e) res) (nextsIndex this) ?nexts,
                headsIndex := [(hash e, e)], length_l := length_l this + 1\<rparr>"
    using assms
    by (auto simp: append_def Let_def heads_def split: sum.splits if_splits)
  have f: "next e = ?nexts" "clock e = ?clk"
    using cr by (auto simp: Entry_create_def Let_def split: option.splits)
  show ?thesis using cr l f by (simp add: get_def update_conv')
qed

theorem append_returns_entry_witness:
  "append sign_ok put_ok allow log_one ''p1'' 1 = (Inr entry_new, log_two)
   \<and> Entry_create sign_ok put_ok (identity_l log_one) (id_l log_one) ''p1'' (next entry_new)
        (clock_l log_two) = Inr entry_new
   \<and> get log_two (hash entry_new) = Some entry_new"
  using append_returns_entry [OF append_example] append_example by blast

subsection \<open>\<^verbatim>\<open>Log.findHeads\<close>\<close>

lemma dom_indexReducer:
  "dom (map_of (indexReducer res e)) = dom (map_of res) \<union> set (next e)"
proof -
  have "dom (map_of (foldl (\<lambda>res a. AList.update a h res) res ns)) = dom (map_of res) \<union> set ns"
    for h ns
    by (induction ns arbitrary: res) (auto simp: update_conv')
  then show ?thesis by (simp add: indexReducer_def)
qed

lemma dom_foldl_indexReducer:
  "dom (map_of (foldl indexReducer res es)) = dom (map_of res) \<union> (\<Union>x \<in> set es. set (next x))"
  by (induction es arbitrary: res) (auto simp: dom_indexReducer)

lemma findHeads_exists:
  "map_of (foldl indexReducer [] entries) h = None
     \<longleftrightarrow> h \<notin> (\<Union>x \<in> set entries. set (next x))"
  using dom_foldl_indexReducer [of "[]" entries] by (auto simp: domIff)

text \<open>
  Claim C7, as stated, fails in its second half. \<^verbatim>\<open>compareIds\<close> returns a boolean, so
  \<^verbatim>\<open>sort\<close> never sees a negative number; of two unreferenced entries with clock ids
  \<open>A\<close> and \<open>B\<close>, given in that order, \<^verbatim>\<open>findHeads\<close> returns \<open>A\<close> before \<open>B\<close>,
  which is not descending. (\<^verbatim>\<open>compareIds(A, B)\<close> is false, read as 0, and
  \<^verbatim>\<open>compareIds(B, A)\<close> is true, read as 1: whichever of the two an engine asks, the
  answer leaves \<open>A\<close> before \<open>B\<close>.)
\<close>

theorem findHeads_not_descending:
  "findHeads [entry0, entryB] = [entry0, entryB]
     \<and> \<not> sorted_by_id_desc (findHeads [entry0, entryB])"
  by code_simp

text \<open>
  Claim C7, amended. For every list of entries none of whose hashes is the name of a
  property of \<^verbatim>\<open>Object.prototype\<close>, \<^verbatim>\<open>findHeads\<close> returns exactly those input entries
  whose hash appears in no input entry's \<^verbatim>\<open>next\<close> list, each as often as the input
  lists it. The order of the result is left open. (\<^verbatim>\<open>items[e.hash]\<close> reads a plain
  object, so an entry whose hash is such a name is dropped whether or not it is named.)
\<close>

theorem findHeads_unreferenced:
  assumes "\<forall>e \<in> set entries. hash e \<notin> set prototype_names"
  shows "mset (findHeads entries)
     = mset (filter (\<lambda>e. hash e \<notin> (\<Union>x \<in> set entries. set (next x))) entries)"
  by (simp add: findHeads_def mset_js_sort findHeads_exists)

theorem findHeads_unreferenced_witness:
  "set (map hash [entry0, entry1, entryB]) \<inter> set prototype_names = {}
   \<and> mset (findHeads [entry0, entry1, entryB]) = mset [entry1, entryB]"
proof -
  have p: "\<forall>e \<in> set [entry0, entry1, entryB]. hash e \<notin> set prototype_names"
    by (simp add: entry0_def entry1_def entryB_def example_entry_def prototype_names_def)
  have f: "filter (\<lambda>e. hash e \<notin> (\<Union>x \<in> set [entry0, entry1, entryB]. set (next x)))
             [entry0, entry1, entryB] = [entry1, entryB]"
    by (simp add: entry0_def entry1_def entryB_def example_entry_def)
  have d: "set (map hash [entry0, entry1, entryB]) \<inter> set prototype_names = {}"
    using p by auto
  have "mset (findHeads [entry0, entry1, entryB]) = mset [entry1, entryB]"
    using findHeads_unreferenced [OF p] unfolding f .
  then show ?thesis using d by blast
qed

text \<open>With the sort as it is defined here, the heads come in the order of the input.\<close>

lemma sort_never_negative:
  "\<forall>x y. 0 \<le> cmp x y \<Longrightarrow> foldl (\<lambda>sorted x. sort_insert cmp x sorted) acc xs = acc @ xs"
proof (induction xs arbitrary: acc)
  case Nil
  then show ?case by simp
next
  case (Cons x xs)
  have nn: "\<not> cmp x y < 0" for y
    using Cons.prems by (simp add: not_less)
  have "sort_insert cmp x acc = acc @ [x]"
    by (induction acc) (simp_all add: nn)
  then show ?case using Cons by simp
qed

lemma findHeads_input_order:
  "findHeads entries = filter (\<lambda>e. hash e \<notin> (\<Union>x \<in> set entries. set (next x))) entries"
proof -
  have "\<forall>x y. 0 \<le> compareIds x y" by (simp add: compareIds_def)
  then have "js_sort compareIds xs = xs" for xs
    using sort_never_negative [of compareIds "[]" xs] by (simp add: js_sort_def)
  then show ?thesis by (simp add: findHeads_def findHeads_exists)
qed

subsection \<open>\<^verbatim>\<open>traverse\<close>\<close>

text \<open>
  Claim C8 against the code. The roots start on the stack without being entered in
  \<^verbatim>\<open>traversed\<close>, so a root that another root names in \<^verbatim>\<open>next\<close> is put on the stack
  a second time and counted twice. In the chain of three entries with roots \<open>entry2\<close>
  and \<open>entry1\<close> and amount 3, the loop ends with the counter at 3 and two entries in the
  result: \<open>entry1\<close> is taken from the stack twice and \<open>entry0\<close>, which is reachable, is
  not visited. From the single root \<open>entry2\<close> the same amount gives all three.
\<close>

theorem traverse_counts_root_twice:
  "traverse_loop chain_index 3 (rev (js_sort LastWriteWins [entry2, entry1])) [] [] 0
     = ([(''h2'', entry2), (''h1'', entry1)], 3)
   \<and> traverse chain_index [entry2, entry1] 3 = [(''h2'', entry2), (''h1'', entry1)]
   \<and> traverse chain_index [entry2] 3 = [(''h2'', entry2), (''h1'', entry1), (''h0'', entry0)]"
  by code_simp

subsection \<open>The length\<close>

text \<open>
  Claim C9 against the code. The constructor sets \<^verbatim>\<open>_length\<close> to \<^verbatim>\<open>entries.length\<close>
  while the entry index keeps one entry per hash: from the array of \<open>entry0\<close> twice it
  builds the log of \<open>entry0\<close> with length 2 and one key in the entry index.
\<close>

theorem constructor_counts_duplicates:
  "example_log ''X'' [entry0, entry0] = Inr (log_one\<lparr>length_l := 2\<rparr>)
   \<and> obj_keys (entryIndex (log_one\<lparr>length_l := 2\<rparr>)) = [''h0'']"
  by code_simp

subsection \<open>The bounded join\<close>

text \<open>\<^verbatim>\<open>tmp.slice(-size)\<close> is the last \<^verbatim>\<open>size\<close> elements for a positive size, and
  the whole array for size 0.\<close>

lemma slice_negative: "0 < n \<Longrightarrow> slice (- n) xs = drop (length xs - nat n) xs"
proof -
  assume "0 < n"
  then have "nat (max (int (length xs) + - n) 0) = length xs - nat n" by linarith
  then show ?thesis using \<open>0 < n\<close> by (simp add: slice_def Let_def)
qed

lemma slice_zero: "slice (- 0) xs = xs"
  by (simp add: slice_def)

text \<open>
  Claim C4 against the code. With size 0 the test \<^verbatim>\<open>size > -1\<close> holds and
  \<^verbatim>\<open>tmp.slice(-size)\<close> is \<^verbatim>\<open>tmp.slice(0)\<close>, the whole array: joining the log of
  \<open>entry0\<close> with the empty log of the same id and size 0 keeps \<open>entry0\<close> in the entry
  index, with length 1, where the last 0 entries of the values are none.
\<close>

theorem join_size_zero_keeps_all:
  "join allow allow log_one (Some log_empty) 0
     = (Inr (Some (log_one\<lparr>headsIndex := [(''0'', entry0)]\<rparr>)),
        log_one\<lparr>headsIndex := [(''0'', entry0)]\<rparr>)
   \<and> values_l log_one = [entry0]
   \<and> length_l (log_one\<lparr>headsIndex := [(''0'', entry0)]\<rparr>) = 1"
  by code_simp

subsection \<open>The order of joins\<close>

lemma example_logs_constructed_more:
  "example_log ''X'' [entry1] = Inr log_tail"
  "example_log ''X'' [entry0, entry1] = Inr log_chain"
  "example_log ''X'' [entry0, entry_fork] = Inr log_fork"
  by code_simp+



subsection \<open>\<^verbatim>\<open>Log.difference\<close> on closed logs\<close>









subsection \<open>\<^verbatim>\<open>join\<close> on closed logs\<close>













lemma foldl_uniqueEntriesReducer_snoc:
  "foldl uniqueEntriesReducer acc (xs @ [x])
     = AList.update (hash x) x (foldl uniqueEntriesReducer acc xs)"
  by (simp add: uniqueEntriesReducer_def)

















text \<open>On these logs the two orders list the keys differently and hold the same entries.\<close>

lemma joined_examples:
  "obj_keys (entryIndex (joined (joined log_one log_two) log_fork)) = [''h0'', ''h2p1'', ''hf'']"
  "obj_keys (entryIndex (joined (joined log_one log_fork) log_two)) = [''h0'', ''hf'', ''h2p1'']"
  "obj_keys (headsIndex (joined (joined log_one log_two) log_fork)) = [''h2p1'', ''hf'']"
  "obj_keys (headsIndex (joined (joined log_one log_fork) log_two)) = [''hf'', ''h2p1'']"
  by code_simp+

end
